theory Spec2Isabelle
  imports Complex_Main "HOL-Library.Sublist" "HOL-Library.Char_ord" "HOL-Library.List_Lexorder"
    "HOL-Library.Monad_Syntax"
begin

section \<open>Product catalog: data model\<close>

text \<open>
  The development embeds \<^verbatim>\<open>services/product_service.py\<close>: the query helpers
  \<^verbatim>\<open>_sort_key\<close> and \<^verbatim>\<open>_matches\<close> and the class \<^verbatim>\<open>ProductService\<close>.
  The service is modelled sequentially: every method body runs under the one
  \<^verbatim>\<open>RLock\<close>, so a call is a function from the catalog before the call to a result and
  the catalog after it.

  Prices are Python floats in the source; they are modelled as rationals, with the one
  non-finite value the source itself produces (\<^verbatim>\<open>float("inf")\<close>, as a sort key) given
  its own constructor below.
\<close>

datatype Kind = Kind_phone | Kind_plan

text \<open>
  The two product variants. The source imports them from \<^verbatim>\<open>product_controller\<close>;
  the fields are the ones the service reads (\<^verbatim>\<open>sku\<close>, \<^verbatim>\<open>name\<close>, \<^verbatim>\<open>active\<close>,
  \<^verbatim>\<open>brand\<close>, \<^verbatim>\<open>upfront_price\<close>, \<^verbatim>\<open>network\<close>, \<^verbatim>\<open>monthly_fee\<close>, \<^verbatim>\<open>description\<close>,
  \<^verbatim>\<open>highlights\<close>); \<^verbatim>\<open>network\<close> is the only optional one.
\<close>

datatype Product =
    PhoneProduct (sku: string) (name: string) (brand: string) (upfront_price: rat)
      (description: string) (highlights: "string list") (active: bool)
  | PlanProduct (sku: string) (name: string) (network: "string option") (monthly_fee: rat)
      (description: string) (highlights: "string list") (active: bool)

text \<open>The \<^verbatim>\<open>kind\<close> field of a record is fixed by its variant.\<close>

fun kind :: "Product \<Rightarrow> Kind" where
  "kind (PhoneProduct _ _ _ _ _ _ _) = Kind_phone"
| "kind (PlanProduct _ _ _ _ _ _ _) = Kind_plan"

text \<open>\<^verbatim>\<open>isinstance(prod, PhoneProduct)\<close> and \<^verbatim>\<open>isinstance(prod, PlanProduct)\<close>.\<close>

fun is_phone :: "Product \<Rightarrow> bool" where
  "is_phone (PhoneProduct _ _ _ _ _ _ _) = True"
| "is_phone (PlanProduct _ _ _ _ _ _ _) = False"

fun is_plan :: "Product \<Rightarrow> bool" where
  "is_plan (PhoneProduct _ _ _ _ _ _ _) = False"
| "is_plan (PlanProduct _ _ _ _ _ _ _) = True"

datatype error = KeyError string | ValueError string | ValidationError

subsection \<open>Strings\<close>

text \<open>\<^verbatim>\<open>str.lower\<close>, on the ASCII letters.\<close>

definition lower_char :: "char \<Rightarrow> char" where
  "lower_char c =
     (let n = (of_char c :: nat) in if 65 \<le> n \<and> n \<le> 90 then char_of (n + 32) else c)"

definition lower :: "string \<Rightarrow> string" where
  "lower s = map lower_char s"

text \<open>\<^verbatim>\<open>sep.join(parts)\<close>.\<close>

fun join :: "string \<Rightarrow> string list \<Rightarrow> string" where
  "join sep [] = []"
| "join sep [x] = x"
| "join sep (x # y # ys) = x @ sep @ join sep (y # ys)"

text \<open>Truthiness of an \<^verbatim>\<open>Optional[str]\<close>: neither \<^verbatim>\<open>None\<close> nor empty.\<close>

fun truthy :: "string option \<Rightarrow> bool" where
  "truthy None = False"
| "truthy (Some s) = (s \<noteq> [])"

text \<open>\<^verbatim>\<open>x or ""\<close> on an \<^verbatim>\<open>Optional[str]\<close>.\<close>

fun or_empty :: "string option \<Rightarrow> string" where
  "or_empty None = []"
| "or_empty (Some s) = s"

subsection \<open>The insertion-ordered dictionary\<close>

text \<open>
  \<^verbatim>\<open>self._catalog\<close> is a Python \<^verbatim>\<open>dict\<close>, which iterates in insertion order:
  assigning to a key that is present keeps its position, assigning to a new key appends,
  and \<^verbatim>\<open>del\<close> removes the entry. It is modelled as an association list.
\<close>

type_synonym catalog = "(string \<times> Product) list"

definition dict_get :: "catalog \<Rightarrow> string \<Rightarrow> Product option" where
  "dict_get c k = map_of c k"

definition dict_contains :: "catalog \<Rightarrow> string \<Rightarrow> bool" where
  "dict_contains c k = (k \<in> set (map fst c))"

definition dict_set :: "catalog \<Rightarrow> string \<Rightarrow> Product \<Rightarrow> catalog" where
  "dict_set c k v =
     (if dict_contains c k then map (\<lambda>(k', v'). if k' = k then (k', v) else (k', v')) c
      else c @ [(k, v)])"

definition dict_del :: "catalog \<Rightarrow> string \<Rightarrow> catalog" where
  "dict_del c k = filter (\<lambda>(k', v'). k' \<noteq> k) c"

definition dict_values :: "catalog \<Rightarrow> Product list" where
  "dict_values c = map snd c"

section \<open>Query engine\<close>

subsection \<open>Sort keys\<close>

text \<open>
  The values \<^verbatim>\<open>_sort_key\<close> returns: a lowercased name, a price, or \<^verbatim>\<open>float("inf")\<close>.
  Within one call of \<^verbatim>\<open>list\<close> the token is fixed, so the keys compared are either all
  strings or all numbers; the order between a string and a number (a \<^verbatim>\<open>TypeError\<close> in
  Python) is never consulted and is fixed here only to make the order total.
\<close>

datatype sort_val = SStr string | SNum rat | SInf

fun sort_val_le :: "sort_val \<Rightarrow> sort_val \<Rightarrow> bool" where
  "sort_val_le (SStr a) (SStr b) = (a \<le> b)"
| "sort_val_le (SStr a) _ = True"
| "sort_val_le (SNum a) (SStr b) = False"
| "sort_val_le (SNum a) (SNum b) = (a \<le> b)"
| "sort_val_le (SNum a) SInf = True"
| "sort_val_le SInf SInf = True"
| "sort_val_le SInf _ = False"

instantiation sort_val :: linorder
begin

definition less_eq_sort_val :: "sort_val \<Rightarrow> sort_val \<Rightarrow> bool" where
  "less_eq_sort_val a b = sort_val_le a b"

definition less_sort_val :: "sort_val \<Rightarrow> sort_val \<Rightarrow> bool" where
  "less_sort_val a b = (sort_val_le a b \<and> \<not> sort_val_le b a)"

instance
proof
  fix x y z :: sort_val
  show "(x < y) = (x \<le> y \<and> \<not> y \<le> x)"
    by (simp add: less_sort_val_def less_eq_sort_val_def)
  show "x \<le> x"
    by (cases x) (simp_all add: less_eq_sort_val_def)
  show "x \<le> y \<Longrightarrow> y \<le> z \<Longrightarrow> x \<le> z"
    by (cases x; cases y; cases z) (auto simp: less_eq_sort_val_def)
  show "x \<le> y \<Longrightarrow> y \<le> x \<Longrightarrow> x = y"
    by (cases x; cases y) (auto simp: less_eq_sort_val_def)
  show "x \<le> y \<or> y \<le> x"
    by (cases x; cases y) (auto simp: less_eq_sort_val_def)
qed

end

text \<open>\<^verbatim>\<open>_sort_key(prod, key)\<close>; \<^verbatim>\<open>getattr\<close> with a default is a case on the variant.\<close>

definition sort_key_prod :: "Product \<Rightarrow> string \<Rightarrow> sort_val" where
  "sort_key_prod pr key =
     (if key \<in> {''name'', ''-name''} then SStr (lower (name pr))
      else if key \<in> {''upfront_price'', ''-upfront_price''} then
        (case pr of PhoneProduct _ _ _ p _ _ _ \<Rightarrow> SNum p | PlanProduct _ _ _ _ _ _ _ \<Rightarrow> SInf)
      else if key \<in> {''monthly_fee'', ''-monthly_fee''} then
        (case pr of PhoneProduct _ _ _ _ _ _ _ \<Rightarrow> SInf | PlanProduct _ _ _ f _ _ _ \<Rightarrow> SNum f)
      else SStr (lower (name pr)))"

subsection \<open>The filter predicate\<close>

text \<open>
  \<^verbatim>\<open>_matches\<close>. The guards are the source's, in its order; \<^verbatim>\<open>if kind and ...\<close>,
  \<^verbatim>\<open>if brand and ...\<close>, \<^verbatim>\<open>if network and prod.network and ...\<close> and \<^verbatim>\<open>if q\<close> test
  truthiness, the price bounds test \<^verbatim>\<open>is not None\<close>.
\<close>

definition haystack :: "Product \<Rightarrow> string" where
  "haystack pr =
     lower (join '' ''
       [name pr,
        (case pr of PhoneProduct _ _ b _ _ _ _ \<Rightarrow> b | PlanProduct _ _ _ _ _ _ _ \<Rightarrow> []),
        (case pr of PhoneProduct _ _ _ _ _ _ _ \<Rightarrow> [] | PlanProduct _ _ n _ _ _ _ \<Rightarrow> or_empty n),
        description pr,
        join '' '' (highlights pr)])"

definition matches ::
  "Product \<Rightarrow> string option \<Rightarrow> Kind option \<Rightarrow> string option \<Rightarrow> string option \<Rightarrow>
     rat option \<Rightarrow> rat option \<Rightarrow> bool" where
  "matches pr q knd brnd netw min_upfront max_upfront =
     (if \<not> active pr then False
      else if knd \<noteq> None \<and> Some (kind pr) \<noteq> knd then False
      else if is_phone pr \<and> truthy brnd \<and> lower (brand pr) \<noteq> lower (the brnd)
        then False
      else if is_phone pr \<and> min_upfront \<noteq> None \<and> upfront_price pr < the min_upfront
        then False
      else if is_phone pr \<and> max_upfront \<noteq> None \<and> upfront_price pr > the max_upfront
        then False
      else if is_plan pr \<and> truthy netw \<and> truthy (network pr)
              \<and> lower (the (network pr)) \<noteq> lower (the netw)
        then False
      else if truthy q \<and> \<not> sublist (lower (the q)) (haystack pr) then False
      else True)"

subsection \<open>Listing\<close>

text \<open>
  Python's \<^verbatim>\<open>xs[start:end]\<close>: a negative index counts from the end, and both
  indices are clipped to the list.
\<close>

definition slice_index :: "nat \<Rightarrow> int \<Rightarrow> nat" where
  "slice_index n i = (if i < 0 then nat (max 0 (int n + i)) else min n (nat i))"

definition py_slice :: "'a list \<Rightarrow> int \<Rightarrow> int \<Rightarrow> 'a list" where
  "py_slice xs start stop =
     (let s = slice_index (length xs) start; e = slice_index (length xs) stop
      in take (e - s) (drop s xs))"

text \<open>\<^verbatim>\<open>sort.startswith("-") if sort else False\<close>.\<close>

definition sort_reverse :: "string option \<Rightarrow> bool" where
  "sort_reverse srt = (if truthy srt then take 1 (the srt) = ''-'' else False)"

text \<open>
  The token handed to \<^verbatim>\<open>_sort_key\<close>: \<^verbatim>\<open>key = sort[1:] if reverse else (sort or "name")\<close>,
  then \<^verbatim>\<open>key if not reverse else f"-{key}"\<close>.
\<close>

definition sort_token :: "string option \<Rightarrow> string" where
  "sort_token srt =
     (let reverse = sort_reverse srt;
          key = (if reverse then drop 1 (the srt) else if truthy srt then the srt else ''name'')
      in if \<not> reverse then key else ''-'' @ key)"

text \<open>
  \<^verbatim>\<open>items.sort(key=..., reverse=...)\<close> is a stable sort; with \<^verbatim>\<open>reverse=True\<close>
  CPython reverses the list, sorts it stably in ascending order and reverses it again.
\<close>

definition py_sort :: "('a \<Rightarrow> 'k::linorder) \<Rightarrow> bool \<Rightarrow> 'a list \<Rightarrow> 'a list" where
  "py_sort f reverse xs = (if reverse then rev (sort_key f (rev xs)) else sort_key f xs)"

text \<open>The list \<^verbatim>\<open>items\<close> after the comprehension and the sort, before the page is cut.\<close>

definition list_items ::
  "catalog \<Rightarrow> string option \<Rightarrow> Kind option \<Rightarrow> string option \<Rightarrow> string option \<Rightarrow>
     rat option \<Rightarrow> rat option \<Rightarrow> string option \<Rightarrow> Product list" where
  "list_items c q knd brnd netw min_upfront max_upfront srt =
     py_sort (\<lambda>p. sort_key_prod p (sort_token srt)) (sort_reverse srt)
       (filter (\<lambda>p. matches p q knd brnd netw min_upfront max_upfront) (dict_values c))"

text \<open>\<^verbatim>\<open>ProductService.list\<close>: the page and the total.\<close>

definition list ::
  "catalog \<Rightarrow> string option \<Rightarrow> Kind option \<Rightarrow> string option \<Rightarrow> string option \<Rightarrow>
     rat option \<Rightarrow> rat option \<Rightarrow> string option \<Rightarrow> int \<Rightarrow> int \<Rightarrow> Product list \<times> nat" where
  "list c q knd brnd netw min_upfront max_upfront srt page page_size =
     (let items = list_items c q knd brnd netw min_upfront max_upfront srt;
          total = length items;
          start = max 0 ((page - 1) * page_size);
          stop = start + page_size
      in (py_slice items start stop, total))"

text \<open>\<^verbatim>\<open>ProductService.get\<close>; a stored model instance is always truthy.\<close>

definition get :: "catalog \<Rightarrow> string \<Rightarrow> error + Product" where
  "get c s = (case dict_get c s of None \<Rightarrow> Inl (KeyError ''Product not found'')
                | Some pr \<Rightarrow> Inr pr)"

section \<open>Validation of payloads\<close>

text \<open>
  An untyped payload (\<^verbatim>\<open>dict\<close>) maps field names to Python values. The \<^verbatim>\<open>Kind\<close>
  enumeration compares equal to its string value, so the \<^verbatim>\<open>kind\<close> entry of a payload
  is the string \<^verbatim>\<open>"phone"\<close> or \<^verbatim>\<open>"plan"\<close>.
\<close>

datatype pyval = VNone | VBool bool | VNum rat | VStr string | VList "pyval list"

type_synonym payload = "string \<rightharpoonup> pyval"

text \<open>
  \<^verbatim>\<open>model = PhoneProduct if kind == Kind.phone else PlanProduct if kind == Kind.plan else None\<close>,
  with \<^verbatim>\<open>kind = payload.get("kind")\<close>.
\<close>

definition select_model :: "payload \<Rightarrow> Kind option" where
  "select_model d =
     (let k = d ''kind''
      in if k = Some (VStr ''phone'') then Some Kind_phone
         else if k = Some (VStr ''plan'') then Some Kind_plan
         else None)"

text \<open>
  Modelled from the spec: the field readers of the two Pydantic models, which are
  declared in \<^verbatim>\<open>product_controller\<close> and not part of the sources at hand. A required
  field must be present with a value of its type; a price or fee must be a non-negative
  number; \<^verbatim>\<open>network\<close> may be missing or \<^verbatim>\<open>None\<close>.
\<close>

fun as_str :: "pyval option \<Rightarrow> string option" where
  "as_str (Some (VStr s)) = Some s"
| "as_str _ = None"

fun as_amount :: "pyval option \<Rightarrow> rat option" where
  "as_amount (Some (VNum r)) = (if 0 \<le> r then Some r else None)"
| "as_amount _ = None"

fun as_bool :: "pyval option \<Rightarrow> bool option" where
  "as_bool (Some (VBool b)) = Some b"
| "as_bool _ = None"

fun as_strs :: "pyval list \<Rightarrow> string list option" where
  "as_strs [] = Some []"
| "as_strs (VStr s # vs) = map_option ((#) s) (as_strs vs)"
| "as_strs (_ # vs) = None"

fun as_str_list :: "pyval option \<Rightarrow> string list option" where
  "as_str_list (Some (VList vs)) = as_strs vs"
| "as_str_list _ = None"

fun as_opt_str :: "pyval option \<Rightarrow> string option option" where
  "as_opt_str None = Some None"
| "as_opt_str (Some VNone) = Some None"
| "as_opt_str (Some (VStr s)) = Some (Some s)"
| "as_opt_str _ = None"

text \<open>
  Modelled from the spec: \<^verbatim>\<open>PhoneProduct.model_validate\<close> and
  \<^verbatim>\<open>PlanProduct.model_validate\<close> (missing with \<^verbatim>\<open>product_controller\<close>): the payload is
  coerced into the variant's shape or rejected as a whole (unknown entries are ignored,
  no partial record is returned).
\<close>

definition validate_phone :: "payload \<Rightarrow> Product option" where
  "validate_phone d = do {
     s \<leftarrow> as_str (d ''sku'');
     n \<leftarrow> as_str (d ''name'');
     b \<leftarrow> as_str (d ''brand'');
     p \<leftarrow> as_amount (d ''upfront_price'');
     ds \<leftarrow> as_str (d ''description'');
     h \<leftarrow> as_str_list (d ''highlights'');
     a \<leftarrow> as_bool (d ''active'');
     Some (PhoneProduct s n b p ds h a)
   }"

definition validate_plan :: "payload \<Rightarrow> Product option" where
  "validate_plan d = do {
     s \<leftarrow> as_str (d ''sku'');
     n \<leftarrow> as_str (d ''name'');
     nw \<leftarrow> as_opt_str (d ''network'');
     f \<leftarrow> as_amount (d ''monthly_fee'');
     ds \<leftarrow> as_str (d ''description'');
     h \<leftarrow> as_str_list (d ''highlights'');
     a \<leftarrow> as_bool (d ''active'');
     Some (PlanProduct s n nw f ds h a)
   }"

definition model_validate :: "Kind \<Rightarrow> payload \<Rightarrow> error + Product" where
  "model_validate model d =
     (case (case model of Kind_phone \<Rightarrow> validate_phone d | Kind_plan \<Rightarrow> validate_plan d) of
        None \<Rightarrow> Inl ValidationError
      | Some pr \<Rightarrow> Inr pr)"

text \<open>
  Modelled from the spec: \<^verbatim>\<open>model_dump\<close> (missing with \<^verbatim>\<open>product_controller\<close>),
  the full field set of a stored record, \<^verbatim>\<open>kind\<close> included.
\<close>

fun model_dump :: "Product \<Rightarrow> payload" where
  "model_dump (PhoneProduct s n b p ds h a) =
     [''kind'' \<mapsto> VStr ''phone'', ''sku'' \<mapsto> VStr s, ''name'' \<mapsto> VStr n, ''brand'' \<mapsto> VStr b,
      ''upfront_price'' \<mapsto> VNum p, ''description'' \<mapsto> VStr ds,
      ''highlights'' \<mapsto> VList (map VStr h), ''active'' \<mapsto> VBool a]"
| "model_dump (PlanProduct s n nw f ds h a) =
     [''kind'' \<mapsto> VStr ''plan'', ''sku'' \<mapsto> VStr s, ''name'' \<mapsto> VStr n,
      ''network'' \<mapsto> (case nw of None \<Rightarrow> VNone | Some w \<Rightarrow> VStr w),
      ''monthly_fee'' \<mapsto> VNum f, ''description'' \<mapsto> VStr ds,
      ''highlights'' \<mapsto> VList (map VStr h), ''active'' \<mapsto> VBool a]"

section \<open>Catalog store: writes\<close>

text \<open>
  Every write returns its result (\<^verbatim>\<open>Inl\<close> the exception raised) together with the
  catalog as the call leaves it.
\<close>

text \<open>\<^verbatim>\<open>ProductService.__init__\<close>: the seed is stored record by record under its SKU.\<close>

definition init :: "Product list \<Rightarrow> catalog" where
  "init seed = foldl (\<lambda>c p. dict_set c (sku p) p) [] seed"

text \<open>\<^verbatim>\<open>ProductService.create\<close>.\<close>

definition create :: "catalog \<Rightarrow> payload \<Rightarrow> (error + Product) \<times> catalog" where
  "create c d =
     (case select_model d of
        None \<Rightarrow> (Inl (ValueError ''Invalid kind; must be 'phone' or 'plan' ''), c)
      | Some model \<Rightarrow>
          (case model_validate model d of
             Inl e \<Rightarrow> (Inl e, c)
           | Inr pr \<Rightarrow>
               if dict_contains c (sku pr) then (Inl (ValueError ''SKU already exists''), c)
               else (Inr pr, dict_set c (sku pr) pr)))"

text \<open>\<^verbatim>\<open>ProductService.update\<close>; \<^verbatim>\<open>data.update(updates or {})\<close> overrides entry by entry.\<close>

definition update :: "catalog \<Rightarrow> string \<Rightarrow> payload \<Rightarrow> (error + Product) \<times> catalog" where
  "update c s updates =
     (case dict_get c s of
        None \<Rightarrow> (Inl (KeyError ''Product not found''), c)
      | Some existing \<Rightarrow>
          (let data = model_dump existing ++ updates
           in case select_model data of
                None \<Rightarrow> (Inl (ValueError ''Invalid kind''), c)
              | Some model \<Rightarrow>
                  (case model_validate model data of
                     Inl e \<Rightarrow> (Inl e, c)
                   | Inr updated \<Rightarrow> (Inr updated, dict_set c s updated))))"

text \<open>
  \<^verbatim>\<open>ProductService.upsert_many\<close>: the loop over \<^verbatim>\<open>items\<close>, with the running
  \<^verbatim>\<open>count\<close>. An exception of \<^verbatim>\<open>model_validate\<close> is not caught in the loop: it ends the
  call, and the catalog keeps what the earlier iterations stored.
\<close>

fun upsert_many_loop :: "payload list \<Rightarrow> int \<Rightarrow> catalog \<Rightarrow> (error + int) \<times> catalog" where
  "upsert_many_loop [] count c = (Inr count, c)"
| "upsert_many_loop (it # items) count c =
     (case select_model it of
        None \<Rightarrow> upsert_many_loop items count c
      | Some model \<Rightarrow>
          (case model_validate model it of
             Inl e \<Rightarrow> (Inl e, c)
           | Inr pr \<Rightarrow> upsert_many_loop items (count + 1) (dict_set c (sku pr) pr)))"

definition upsert_many :: "catalog \<Rightarrow> payload list \<Rightarrow> (error + int) \<times> catalog" where
  "upsert_many c items = upsert_many_loop items 0 c"

text \<open>\<^verbatim>\<open>ProductService.delete\<close>.\<close>

definition delete :: "catalog \<Rightarrow> string \<Rightarrow> (error + unit) \<times> catalog" where
  "delete c s =
     (if \<not> dict_contains c s then (Inl (KeyError ''Product not found''), c)
      else (Inr (), dict_del c s))"

text \<open>\<^verbatim>\<open>ProductService.count\<close>.\<close>

definition count :: "catalog \<Rightarrow> nat" where
  "count c = length c"

section \<open>Sequences of calls\<close>

text \<open>
  A caller's calls, one after the other on the same service. A call that raises leaves
  the catalog as \<^verbatim>\<open>create\<close>, \<^verbatim>\<open>update\<close> or \<^verbatim>\<open>delete\<close> left it, and the caller
  goes on with the next call.
\<close>

datatype op = Create payload | Update string payload | Delete string

fun apply_op :: "catalog \<Rightarrow> op \<Rightarrow> catalog" where
  "apply_op c (Create d) = snd (create c d)"
| "apply_op c (Update s u) = snd (update c s u)"
| "apply_op c (Delete s) = snd (delete c s)"

definition run :: "catalog \<Rightarrow> op list \<Rightarrow> catalog" where
  "run c ops = foldl apply_op c ops"

subsection \<open>The store as the specification describes it\<close>

text \<open>
  The definitions of this subsection follow the words of the specification of the
  catalog store, not the code: the store is a mapping from SKU to record, and each
  operation is given by its description there.

  Validation: the payload's kind is determined, the shape of that variant is selected
  and all fields are coerced; the outcome is a valid record or a failure (unknown or
  missing kind, missing field, wrong type or range).
\<close>

definition spec_validate :: "payload \<Rightarrow> Product option" where
  "spec_validate d =
     (case d ''kind'' of
        Some (VStr k) \<Rightarrow>
          if k = ''phone'' then validate_phone d
          else if k = ''plan'' then validate_plan d
          else None
      | _ \<Rightarrow> None)"






text \<open>
  Upsert of a batch: each payload on its own; an invalid one is skipped, a valid one is
  created or replaces the record of its SKU.
\<close>

definition spec_upsert_many :: "(string \<rightharpoonup> Product) \<Rightarrow> payload list \<Rightarrow> (string \<rightharpoonup> Product)" where
  "spec_upsert_many m items =
     foldl (\<lambda>m d. case spec_validate d of None \<Rightarrow> m | Some pr \<Rightarrow> m(sku pr \<mapsto> pr)) m items"

text \<open>The recognised sort tokens (\<^verbatim>\<open>Sortable\<close>).\<close>

definition sortable :: "string set" where
  "sortable = {''name'', ''-name'', ''upfront_price'', ''-upfront_price'',
               ''monthly_fee'', ''-monthly_fee''}"

text \<open>The invariant of the store: a record is stored under its own SKU.\<close>

definition keyed_by_sku :: "catalog \<Rightarrow> bool" where
  "keyed_by_sku c = list_all (\<lambda>(k, p). sku p = k) c"

subsection \<open>Example catalog\<close>

text \<open>
  The records of the scenario: a phone \<^verbatim>\<open>p1\<close> (price 500, brand Acme) and a plan
  \<^verbatim>\<open>s1\<close> (fee 20, network NetA), both active; beside them a plan without a network
  and an inactive phone.
\<close>

definition phone_p1 :: Product where
  "phone_p1 = PhoneProduct ''p1'' ''Alpha'' ''Acme'' 500 ''A phone'' [''5G''] True"

definition plan_s1 :: Product where
  "plan_s1 = PlanProduct ''s1'' ''Basic'' (Some ''NetA'') 20 ''A plan'' [] True"

definition plan_s2 :: Product where
  "plan_s2 = PlanProduct ''s2'' ''Open'' None 15 ''Any network'' [] True"

definition phone_p2 :: Product where
  "phone_p2 = PhoneProduct ''p2'' ''Zeta'' ''Bolt'' 300 ''Retired'' [] False"

text \<open>A payload of kind \<^verbatim>\<open>phone\<close> that lacks every other field.\<close>

definition bare_phone :: payload where
  "bare_phone = [''kind'' \<mapsto> VStr ''phone'']"

lemma set_py_sort: "set (py_sort f r xs) = set xs"
  by (simp add: py_sort_def)

lemma length_py_sort: "length (py_sort f r xs) = length xs"
  by (simp add: py_sort_def)

lemma py_sort_stable: "filter (\<lambda>y. f y = k) (py_sort f r xs) = filter (\<lambda>y. f y = k) xs"
proof (cases r)
  case True
  have "filter (\<lambda>y. f y = k) (rev (sort_key f (rev xs))) = rev (filter (\<lambda>y. f y = k) (sort_key f (rev xs)))"
    by (simp add: rev_filter)
  also have "\<dots> = rev (filter (\<lambda>y. f y = k) (rev xs))"
    by (simp only: sort_key_stable)
  also have "\<dots> = filter (\<lambda>y. f y = k) xs"
    by (simp add: rev_filter)
  finally show ?thesis using True by (simp add: py_sort_def)
next
  case False
  then show ?thesis by (simp add: py_sort_def sort_key_stable)
qed

lemma py_sort_ascending: "sorted (map f (py_sort f False xs))"
  by (simp add: py_sort_def)

lemma py_sort_descending: "sorted (rev (map f (py_sort f True xs)))"
  by (simp add: py_sort_def rev_map)

lemma set_list_items:
  "set (list_items c q knd brnd netw mn mx srt) =
     {p \<in> set (dict_values c). matches p q knd brnd netw mn mx}"
  by (simp add: list_items_def set_py_sort)

lemma length_list_items:
  "length (list_items c q knd brnd netw mn mx srt) =
     length (filter (\<lambda>p. matches p q knd brnd netw mn mx) (dict_values c))"
  by (simp add: list_items_def length_py_sort)

lemma set_py_slice: "set (py_slice xs s e) \<subseteq> set xs"
  unfolding py_slice_def Let_def
  by (meson set_take_subset set_drop_subset subset_trans)

lemma matches_active: "matches p q knd brnd netw mn mx \<Longrightarrow> active p"
  by (simp add: matches_def split: if_splits)

text \<open>
  Claim C7. Whatever the catalog and whatever the filters, the sort token and the page,
  every record among the items \<^verbatim>\<open>list\<close> returns is active.
\<close>

theorem list_only_active:
  "p \<in> set (fst (list c q knd brnd netw mn mx srt page page_size)) \<Longrightarrow> active p"
proof -
  assume "p \<in> set (fst (list c q knd brnd netw mn mx srt page page_size))"
  then have "p \<in> set (list_items c q knd brnd netw mn mx srt)"
    using set_py_slice by (fastforce simp: list_def Let_def)
  then show "active p"
    by (auto simp: set_list_items dest: matches_active)
qed

theorem list_only_active_witness:
  "phone_p1 \<in> set (fst (list (init [phone_p1, plan_s1, phone_p2]) None (Some Kind_phone) None None
       None None (Some ''name'') 1 12))
   \<and> active phone_p1"
proof -
  have h: "phone_p1 \<in> set (fst (list (init [phone_p1, plan_s1, phone_p2]) None (Some Kind_phone)
             None None None None (Some ''name'') 1 12))"
    by code_simp
  show ?thesis using h list_only_active [OF h] by simp
qed

text \<open>
  Claim C10. With a positive page size, a page number that is zero or negative gives the
  same items and the same total as page 1: the start of the window is clamped to 0.
\<close>

theorem list_nonpositive_page:
  assumes "0 < page_size" and "page \<le> 0"
  shows "list c q knd brnd netw mn mx srt page page_size = list c q knd brnd netw mn mx srt 1 page_size"
proof -
  have "(page - 1) * page_size \<le> 0"
    using assms by (simp add: mult_nonpos_nonneg)
  then have "max 0 ((page - 1) * page_size) = 0" by simp
  then show ?thesis by (simp add: list_def Let_def)
qed

theorem list_nonpositive_page_witness:
  "(0::int) < 2 \<and> (- 3::int) \<le> 0
   \<and> list (init [phone_p1, plan_s1, plan_s2]) None None None None None None (Some ''name'') (- 3) 2
     = list (init [phone_p1, plan_s1, plan_s2]) None None None None None None (Some ''name'') 1 2"
  using list_nonpositive_page [of 2 "- 3" "init [phone_p1, plan_s1, plan_s2]"
          None None None None None None "Some ''name''"]
  by simp

lemma py_slice_nat:
  "py_slice xs (int s) (int s + int m) = take m (drop s xs)"
proof (cases "s \<le> length xs")
  case True
  then show ?thesis
    by (simp add: py_slice_def slice_index_def Let_def min_def nat_add_distrib)
next
  case False
  then show ?thesis
    by (simp add: py_slice_def slice_index_def Let_def)
qed

lemma concat_pages:
  "concat (map (\<lambda>i. take m (drop (i * m) xs)) [0..<k]) = take (k * m) xs"
proof (induction k)
  case 0
  then show ?case by simp
next
  case (Suc k)
  have "take (k * m) xs @ take m (drop (k * m) xs) = take (k * m + m) xs"
    by (simp add: take_add)
  with Suc show ?case by (simp add: add.commute)
qed


lemma ceiling_nonneg: "0 \<le> \<lceil>rat_of_nat n / rat_of_nat m\<rceil>"
proof -
  have "0 \<le> rat_of_nat n / rat_of_nat m" by simp
  then show ?thesis by (simp only: zero_le_ceiling)
qed

lemma ceiling_pages:
  assumes "0 < m"
  shows "n \<le> nat \<lceil>rat_of_nat n / rat_of_nat m\<rceil> * m"
proof -
  define k where "k = nat \<lceil>rat_of_nat n / rat_of_nat m\<rceil>"
  have k: "rat_of_int \<lceil>rat_of_nat n / rat_of_nat m\<rceil> = rat_of_nat k"
    unfolding k_def using ceiling_nonneg [of n m] by simp
  have "rat_of_nat n / rat_of_nat m \<le> rat_of_nat k"
    unfolding k [symmetric] by (rule le_of_int_ceiling)
  then have "rat_of_nat n \<le> rat_of_nat k * rat_of_nat m"
    using assms by (simp add: pos_divide_le_eq)
  then have "rat_of_nat n \<le> rat_of_nat (k * m)"
    by (simp only: of_nat_mult)
  then have "n \<le> k * m"
    by (simp only: of_nat_le_iff)
  then show ?thesis unfolding k_def .
qed

lemma list_page_nat:
  "fst (list c q knd brnd netw mn mx srt (int (Suc i)) (int m)) =
     take m (drop (i * m) (list_items c q knd brnd netw mn mx srt))"
proof -
  have "max 0 (int i * int m) = int (i * m)" by simp
  then show ?thesis
    using py_slice_nat [of "list_items c q knd brnd netw mn mx srt" "i * m" m]
    by (simp add: list_def Let_def)
qed

text \<open>
  Claim C9. For a positive page size, the pages 1 up to the ceiling of total / page size,
  one after the other, are exactly the filtered and sorted sequence; every page beyond
  that number is empty; and the total returned with any page is the number of records
  of the catalog that match the filters.
\<close>

theorem list_pagination:
  assumes "0 < page_size"
  shows "concat (map (\<lambda>page. fst (list c q knd brnd netw mn mx srt (int page) page_size))
            [1..<Suc (nat \<lceil>rat_of_nat (snd (list c q knd brnd netw mn mx srt 1 page_size))
                           / rat_of_int page_size\<rceil>)])
          = list_items c q knd brnd netw mn mx srt
       \<and> (\<forall>page. \<lceil>rat_of_nat (snd (list c q knd brnd netw mn mx srt 1 page_size))
                    / rat_of_int page_size\<rceil> < page
             \<longrightarrow> fst (list c q knd brnd netw mn mx srt page page_size) = [])
       \<and> (\<forall>page. snd (list c q knd brnd netw mn mx srt page page_size)
             = length (filter (\<lambda>p. matches p q knd brnd netw mn mx) (dict_values c)))"
proof -
  let ?items = "list_items c q knd brnd netw mn mx srt"
  let ?n = "length ?items"
  obtain m where m: "page_size = int m" "0 < m"
    using assms zero_less_imp_eq_int by blast
  let ?k = "nat \<lceil>rat_of_nat ?n / rat_of_nat m\<rceil>"
  have total: "snd (list c q knd brnd netw mn mx srt page page_size) = ?n" for page
    by (simp add: list_def Let_def)
  have cover: "?n \<le> ?k * m"
    using m(2) by (rule ceiling_pages)
  have "concat (map (\<lambda>page. fst (list c q knd brnd netw mn mx srt (int page) page_size)) [1..<Suc ?k])
        = concat (map (\<lambda>i. take m (drop (i * m) ?items)) [0..<?k])"
  proof -
    have upt: "[1..<Suc ?k] = map Suc [0..<?k]"
      by (simp add: map_Suc_upt)
    have "map (\<lambda>page. fst (list c q knd brnd netw mn mx srt (int page) page_size)) [1..<Suc ?k]
          = map (\<lambda>i. fst (list c q knd brnd netw mn mx srt (int (Suc i)) (int m))) [0..<?k]"
      unfolding m(1) by (simp only: upt map_map o_def)
    then show ?thesis
      by (simp only: list_page_nat)
  qed
  also have "\<dots> = take (?k * m) ?items"
    by (rule concat_pages)
  also have "\<dots> = ?items"
    using cover by simp
  finally have pages: "concat (map (\<lambda>page. fst (list c q knd brnd netw mn mx srt (int page) page_size)) [1..<Suc ?k]) = ?items" .
  have beyond: "fst (list c q knd brnd netw mn mx srt page page_size) = []"
    if "\<lceil>rat_of_nat ?n / rat_of_int page_size\<rceil> < page" for page
  proof -
    have "int ?k < page"
      using that ceiling_nonneg [of ?n m] by (simp add: m(1))
    then have "page = int (Suc (nat (page - 1)))" and "?k \<le> nat (page - 1)"
      by linarith+
    then obtain i where i: "page = int (Suc i)" "?k \<le> i"
      by blast
    have "?n \<le> i * m"
      using cover i(2) by (meson le_trans mult_le_mono1)
    then have "take m (drop (i * m) ?items) = []"
      by simp
    then show ?thesis
      unfolding i(1) m(1) by (simp only: list_page_nat)
  qed
  show ?thesis
    using pages beyond total length_list_items by (simp add: m(1))
qed

theorem list_pagination_witness:
  "(0::int) < 2
   \<and> concat (map (\<lambda>page. fst (list (init [phone_p1, plan_s1, plan_s2]) None None None None
                 None None (Some ''name'') (int page) 2))
        [1..<Suc (nat \<lceil>rat_of_nat (snd (list (init [phone_p1, plan_s1, plan_s2]) None None None
                         None None None (Some ''name'') 1 2)) / rat_of_int 2\<rceil>)])
     = [phone_p1, plan_s1, plan_s2]
   \<and> fst (list (init [phone_p1, plan_s1, plan_s2]) None None None None None None
          (Some ''name'') 3 2) = []
   \<and> snd (list (init [phone_p1, plan_s1, plan_s2]) None None None None None None
          (Some ''name'') 2 2) = 3"
proof -
  have total: "snd (list (init [phone_p1, plan_s1, plan_s2]) None None None None None None
                 (Some ''name'') 1 2) = 3"
    by code_simp
  have items: "list_items (init [phone_p1, plan_s1, plan_s2]) None None None None None None
                 (Some ''name'') = [phone_p1, plan_s1, plan_s2]"
    by code_simp
  have matching: "length (filter (\<lambda>p. matches p None None None None None None)
                    (dict_values (init [phone_p1, plan_s1, plan_s2]))) = 3"
    by code_simp
  have beyond: "\<lceil>rat_of_nat 3 / rat_of_int 2\<rceil> < (3::int)"
    by code_simp
  show ?thesis
    using list_pagination [of 2 "init [phone_p1, plan_s1, plan_s2]" None None None None None None
            "Some ''name''"] beyond
    by (simp only: total items matching) simp
qed

lemma map_of_replace_other:
  "s \<noteq> k \<Longrightarrow> map_of (map (\<lambda>(k', v'). if k' = k then (k', v) else (k', v')) c) s = map_of c s"
  by (induction c) auto

lemma map_of_replace_same:
  "k \<in> fst ` set c \<Longrightarrow> map_of (map (\<lambda>(k', v'). if k' = k then (k', v) else (k', v')) c) k = Some v"
  by (induction c) auto

lemma dict_get_set: "dict_get (dict_set c k v) s = (if s = k then Some v else dict_get c s)"
proof (cases "dict_contains c k")
  case True
  then show ?thesis
    by (simp add: dict_get_def dict_set_def dict_contains_def map_of_replace_other map_of_replace_same)
next
  case False
  then have "map_of c k = None"
    by (simp add: dict_contains_def map_of_eq_None_iff)
  with False show ?thesis
    by (simp add: dict_get_def dict_set_def map_add_def split: option.splits)
qed

lemma dict_get_del: "dict_get (dict_del c k) s = (if s = k then None else dict_get c s)"
  unfolding dict_get_def dict_del_def by (induction c) auto


lemma dict_get_set_fun: "dict_get (dict_set c k v) = (dict_get c)(k \<mapsto> v)"
  by (rule ext) (simp add: dict_get_set)



lemma spec_validate_model:
  "spec_validate d =
     (case select_model d of
        None \<Rightarrow> None
      | Some model \<Rightarrow> (case model_validate model d of Inl e \<Rightarrow> None | Inr pr \<Rightarrow> Some pr))"
proof (cases "d ''kind''")
  case None
  then show ?thesis by (simp add: spec_validate_def select_model_def)
next
  case (Some v)
  then show ?thesis
    by (cases v)
       (auto simp: spec_validate_def select_model_def model_validate_def split: option.splits)
qed







text \<open>
  What the single calls do to a lookup: a payload that validates and whose SKU is free is
  returned by \<^verbatim>\<open>create\<close> and found afterwards; the record a successful
  \<^verbatim>\<open>update\<close> returns is found under the SKU the update addressed; a SKU that
  \<^verbatim>\<open>delete\<close> removed is not found; other SKUs are not touched.
\<close>

lemma create_then_get:
  assumes "spec_validate d = Some pr" and "\<not> dict_contains c (sku pr)"
  shows "fst (create c d) = Inr pr" and "get (snd (create c d)) (sku pr) = Inr pr"
    and "s \<noteq> sku pr \<Longrightarrow> get (snd (create c d)) s = get c s"
  using assms
  by (auto simp: create_def spec_validate_model get_def dict_get_set
        split: option.splits sum.splits)

lemma update_then_get:
  assumes "fst (update c k u) = Inr pr"
  shows "get (snd (update c k u)) k = Inr pr"
    and "s \<noteq> k \<Longrightarrow> get (snd (update c k u)) s = get c s"
  using assms
  by (auto simp: update_def Let_def get_def dict_get_set split: option.splits sum.splits)

lemma delete_then_get:
  assumes "dict_contains c k"
  shows "fst (delete c k) = Inr ()"
    and "get (snd (delete c k)) k = Inl (KeyError ''Product not found'')"
    and "s \<noteq> k \<Longrightarrow> get (snd (delete c k)) s = get c s"
  using assms by (auto simp: delete_def get_def dict_get_del)

text \<open>
  For a batch in which every payload of a known kind validates, \<^verbatim>\<open>upsert_many\<close>
  writes what the specification describes.
\<close>

lemma upsert_many_loop_refines:
  assumes "\<forall>d \<in> set items. select_model d \<noteq> None \<longrightarrow> spec_validate d \<noteq> None"
  shows "dict_get (snd (upsert_many_loop items n c)) = spec_upsert_many (dict_get c) items"
  using assms
proof (induction items arbitrary: n c)
  case Nil
  then show ?case by (simp add: spec_upsert_many_def)
next
  case (Cons d items)
  from Cons.prems have rest: "\<forall>d \<in> set items. select_model d \<noteq> None \<longrightarrow> spec_validate d \<noteq> None"
    by simp
  show ?case
  proof (cases "select_model d")
    case None
    then have "spec_validate d = None" by (simp add: spec_validate_model)
    with None show ?thesis
      using Cons.IH [OF rest, of n c] by (simp add: spec_upsert_many_def)
  next
    case (Some model)
    with Cons.prems obtain pr where pr: "spec_validate d = Some pr" by auto
    with Some have valid: "model_validate model d = Inr pr"
      by (simp add: spec_validate_model split: sum.splits)
    have "dict_get (snd (upsert_many_loop (d # items) n c))
          = dict_get (snd (upsert_many_loop items (n + 1) (dict_set c (sku pr) pr)))"
      using Some valid by simp
    also have "\<dots> = spec_upsert_many (dict_get (dict_set c (sku pr) pr)) items"
      by (rule Cons.IH [OF rest])
    also have "\<dots> = spec_upsert_many ((dict_get c)(sku pr \<mapsto> pr)) items"
      by (simp only: dict_get_set_fun)
    also have "\<dots> = spec_upsert_many (dict_get c) (d # items)"
      using pr by (simp add: spec_upsert_many_def)
    finally show ?thesis .
  qed
qed


text \<open>
  The scenario of the two visibilities: once \<^verbatim>\<open>p1\<close> is updated to inactive, \<^verbatim>\<open>list\<close>
  of phones is empty while \<^verbatim>\<open>get\<close> still returns the record; creating \<^verbatim>\<open>p1\<close> again
  is refused; after \<^verbatim>\<open>delete\<close> the lookup raises \<^verbatim>\<open>KeyError\<close>.
\<close>

lemma scenario_inactive_still_retrievable:
  "list (init [phone_p1, plan_s1]) None (Some Kind_phone) None None None None (Some ''name'') 1 12
     = ([phone_p1], 1)
   \<and> list (run (init [phone_p1, plan_s1]) [Update ''p1'' [''active'' \<mapsto> VBool False]])
         None (Some Kind_phone) None None None None (Some ''name'') 1 12 = ([], 0)
   \<and> get (run (init [phone_p1, plan_s1]) [Update ''p1'' [''active'' \<mapsto> VBool False]]) ''p1''
       = Inr (PhoneProduct ''p1'' ''Alpha'' ''Acme'' 500 ''A phone'' [''5G''] False)
   \<and> fst (create (init [phone_p1, plan_s1]) (model_dump phone_p1))
       = Inl (ValueError ''SKU already exists'')
   \<and> get (run (init [phone_p1, plan_s1]) [Delete ''p1'']) ''p1''
       = Inl (KeyError ''Product not found'')"
  by code_simp

lemma matches_plan_unfold:
  "is_plan p \<Longrightarrow>
   matches p q knd brnd netw mn mx =
     (active p \<and> (knd = None \<or> knd = Some (kind p))
      \<and> \<not> (truthy netw \<and> truthy (network p) \<and> lower (the (network p)) \<noteq> lower (the netw))
      \<and> \<not> (truthy q \<and> \<not> sublist (lower (the q)) (haystack p)))"
  by (cases p) (auto simp: matches_def)

lemma matches_phone_bounds:
  assumes "is_phone p" and "matches p q knd brnd netw mn mx"
  shows "(truthy brnd \<longrightarrow> lower (brand p) = lower (the brnd))
       \<and> (\<forall>m. mn = Some m \<longrightarrow> m \<le> upfront_price p)
       \<and> (\<forall>m. mx = Some m \<longrightarrow> upfront_price p \<le> m)"
  using assms by (auto simp: matches_def split: if_splits)

text \<open>
  Claim C3, as the code has it. With the network filter set, a plan record whose own
  network value is absent (\<^verbatim>\<open>None\<close> or empty) is not excluded by the filter: it is in
  the filtered and sorted list exactly when it is there with the network filter unset.
  A plan record that has a network value is in the list exactly when it is there with
  the filter unset and the two lowercased values are equal.
\<close>

theorem network_filter_on_plans:
  assumes "is_plan p" and "truthy netw"
  shows "(\<not> truthy (network p) \<longrightarrow>
            (p \<in> set (list_items c q knd brnd netw mn mx srt)
               \<longleftrightarrow> p \<in> set (list_items c q knd brnd None mn mx srt)))
       \<and> (truthy (network p) \<longrightarrow>
            (p \<in> set (list_items c q knd brnd netw mn mx srt)
               \<longleftrightarrow> p \<in> set (list_items c q knd brnd None mn mx srt)
                    \<and> lower (the (network p)) = lower (the netw)))"
  using assms by (auto simp: set_list_items matches_plan_unfold)

theorem network_filter_on_plans_witness:
  "is_plan plan_s2 \<and> truthy (Some ''NetA'') \<and> \<not> truthy (network plan_s2)
   \<and> plan_s2 \<in> set (list_items (init [plan_s1, plan_s2]) None None None (Some ''NetA'') None None
                       (Some ''name''))
   \<and> is_plan plan_s1 \<and> truthy (network plan_s1)
   \<and> plan_s1 \<in> set (list_items (init [plan_s1, plan_s2]) None None None (Some ''neta'') None None
                       (Some ''name''))
   \<and> lower (the (network plan_s1)) = lower (the (Some ''neta''))"
proof -
  have s2: "is_plan plan_s2" "\<not> truthy (network plan_s2)"
    and s1: "is_plan plan_s1" "truthy (network plan_s1)"
    and t: "truthy (Some ''NetA'')" "truthy (Some ''neta'')"
    by code_simp+
  have unset2: "plan_s2 \<in> set (list_items (init [plan_s1, plan_s2]) None None None None None None
                   (Some ''name''))"
    by code_simp
  have set1: "plan_s1 \<in> set (list_items (init [plan_s1, plan_s2]) None None None (Some ''neta'')
                 None None (Some ''name''))"
    by code_simp
  show ?thesis
    using network_filter_on_plans [OF s2(1) t(1), of "init [plan_s1, plan_s2]" None None None None
            None "Some ''name''"]
          network_filter_on_plans [OF s1(1) t(2), of "init [plan_s1, plan_s2]" None None None None
            None "Some ''name''"]
          s1 s2 t unset2 set1
    by blast
qed

theorem network_filter_counterexample:
  "is_plan plan_s2 \<and> network plan_s2 = None
   \<and> list (init [plan_s1, plan_s2]) None None None (Some ''NetA'') None None (Some ''name'') 1 12
       = ([plan_s1, plan_s2], 2)"
  by code_simp

text \<open>
  Claim C4, as the code has it. The brand and upfront-price filters are tested on phone
  records only. Every phone in the filtered list has the brand asked for (compared in
  lower case) and an upfront price within the bounds; a plan record is in the list
  exactly when it is there with the three filters unset.
\<close>

theorem phone_only_filters:
  "(is_plan p \<longrightarrow>
      (p \<in> set (list_items c q knd brnd netw mn mx srt)
         \<longleftrightarrow> p \<in> set (list_items c q knd None netw None None srt)))
   \<and> (is_phone p \<and> p \<in> set (list_items c q knd brnd netw mn mx srt) \<longrightarrow>
        (truthy brnd \<longrightarrow> lower (brand p) = lower (the brnd))
        \<and> (\<forall>m. mn = Some m \<longrightarrow> m \<le> upfront_price p)
        \<and> (\<forall>m. mx = Some m \<longrightarrow> upfront_price p \<le> m))"
proof -
  have plan: "p \<in> set (list_items c q knd brnd netw mn mx srt)
               \<longleftrightarrow> p \<in> set (list_items c q knd None netw None None srt)" if "is_plan p"
    using that by (simp add: set_list_items matches_plan_unfold)
  have phone: "(truthy brnd \<longrightarrow> lower (brand p) = lower (the brnd))
        \<and> (\<forall>m. mn = Some m \<longrightarrow> m \<le> upfront_price p)
        \<and> (\<forall>m. mx = Some m \<longrightarrow> upfront_price p \<le> m)"
    if "is_phone p \<and> p \<in> set (list_items c q knd brnd netw mn mx srt)"
  proof -
    from that have "is_phone p" and "matches p q knd brnd netw mn mx"
      by (simp_all add: set_list_items)
    then show ?thesis by (rule matches_phone_bounds)
  qed
  show ?thesis using plan phone by blast
qed

theorem phone_only_filters_witness:
  "is_plan plan_s1
   \<and> plan_s1 \<in> set (list_items (init [phone_p1, plan_s1]) None None (Some ''Acme'') None
                       (Some 100) (Some 900) (Some ''name''))
   \<and> is_phone phone_p1
   \<and> phone_p1 \<in> set (list_items (init [phone_p1, plan_s1]) None None (Some ''Acme'') None
                       (Some 100) (Some 900) (Some ''name''))
   \<and> lower (brand phone_p1) = lower ''Acme''
   \<and> 100 \<le> upfront_price phone_p1 \<and> upfront_price phone_p1 \<le> 900"
proof -
  have plan: "is_plan plan_s1" and phone: "is_phone phone_p1"
    by code_simp+
  have unset: "plan_s1 \<in> set (list_items (init [phone_p1, plan_s1]) None None None None None None
                  (Some ''name''))"
    by code_simp
  have listed: "phone_p1 \<in> set (list_items (init [phone_p1, plan_s1]) None None (Some ''Acme'') None
                   (Some 100) (Some 900) (Some ''name''))"
    by code_simp
  show ?thesis
    using phone_only_filters [of plan_s1 "init [phone_p1, plan_s1]" None None "Some ''Acme''" None
            "Some 100" "Some 900" "Some ''name''"]
          phone_only_filters [of phone_p1 "init [phone_p1, plan_s1]" None None "Some ''Acme''" None
            "Some 100" "Some 900" "Some ''name''"]
          plan phone unset listed
    by simp
qed

theorem phone_only_filters_counterexample:
  "is_plan plan_s1
   \<and> plan_s1 \<in> set (fst (list (init [phone_p1, plan_s1]) None None (Some ''Acme'') None None None
                            (Some ''name'') 1 12))
   \<and> plan_s1 \<in> set (fst (list (init [phone_p1, plan_s1]) None None None None (Some 100) None
                            (Some ''name'') 1 12))
   \<and> plan_s1 \<in> set (fst (list (init [phone_p1, plan_s1]) None None None None None (Some 900)
                            (Some ''name'') 1 12))"
  by code_simp

lemma sort_token_Some: "sort_token (Some t) = (if t = [] then ''name'' else t)"
proof (cases "t \<noteq> [] \<and> take 1 t = ''-''")
  case True
  then have "''-'' @ drop 1 t = t"
    by (metis append_take_drop_id)
  with True show ?thesis
    by (simp add: sort_token_def sort_reverse_def)
next
  case False
  then show ?thesis
    by (auto simp: sort_token_def sort_reverse_def)
qed

lemma sort_key_prod_fallback:
  assumes "t \<notin> sortable"
  shows "sort_key_prod p (sort_token (Some t)) = SStr (lower (name p))"
proof (cases "t = []")
  case True
  then show ?thesis by (simp add: sort_token_Some sort_key_prod_def)
next
  case False
  with assms show ?thesis by (simp add: sort_token_Some sort_key_prod_def sortable_def)
qed

lemma SStr_le: "SStr a \<le> SStr b \<longleftrightarrow> a \<le> b"
  by (simp add: less_eq_sort_val_def)

lemma sorted_SStr: "sorted (map (\<lambda>p. SStr (f p)) xs) \<longleftrightarrow> sorted (map f xs)"
  by (simp add: sorted_map SStr_le)

text \<open>
  Claim C8, as the code has it. A sort token outside the recognised ones falls back to
  the lowercased name as key, but the direction still follows the token: the list is in
  ascending order of lowercased name when the token does not start with \<^verbatim>\<open>-\<close>, and
  in descending order when it does. For every token, recognised or not and in either
  direction, the sort is stable: the records that share a sort key stand in the order
  in which the catalog iterates over them.
\<close>

theorem list_items_order:
  "(t \<notin> sortable \<and> \<not> sort_reverse (Some t) \<longrightarrow>
      sorted (map (\<lambda>p. lower (name p)) (list_items c q knd brnd netw mn mx (Some t))))
   \<and> (t \<notin> sortable \<and> sort_reverse (Some t) \<longrightarrow>
        sorted (rev (map (\<lambda>p. lower (name p)) (list_items c q knd brnd netw mn mx (Some t)))))
   \<and> filter (\<lambda>p. sort_key_prod p (sort_token srt) = v) (list_items c q knd brnd netw mn mx srt)
       = filter (\<lambda>p. sort_key_prod p (sort_token srt) = v)
           (filter (\<lambda>p. matches p q knd brnd netw mn mx) (dict_values c))"
proof -
  let ?xs = "filter (\<lambda>p. matches p q knd brnd netw mn mx) (dict_values c)"
  let ?key = "\<lambda>p. SStr (lower (name p))"
  have fallback: "list_items c q knd brnd netw mn mx (Some t) = py_sort ?key (sort_reverse (Some t)) ?xs"
    if "t \<notin> sortable"
    using that by (simp add: list_items_def sort_key_prod_fallback)
  have up: "sorted (map (\<lambda>p. lower (name p)) (list_items c q knd brnd netw mn mx (Some t)))"
    if "t \<notin> sortable \<and> \<not> sort_reverse (Some t)"
  proof -
    have "sorted (map ?key (py_sort ?key False ?xs))"
      by (rule py_sort_ascending)
    then show ?thesis
      using that by (simp add: fallback sorted_SStr)
  qed
  have down: "sorted (rev (map (\<lambda>p. lower (name p)) (list_items c q knd brnd netw mn mx (Some t))))"
    if "t \<notin> sortable \<and> sort_reverse (Some t)"
  proof -
    have "sorted (rev (map ?key (py_sort ?key True ?xs)))"
      by (rule py_sort_descending)
    then have "sorted (map ?key (rev (py_sort ?key True ?xs)))"
      by (simp only: rev_map)
    then have "sorted (map (\<lambda>p. lower (name p)) (rev (py_sort ?key True ?xs)))"
      by (simp only: sorted_SStr)
    then show ?thesis
      using that by (simp add: fallback rev_map)
  qed
  have stable: "filter (\<lambda>p. sort_key_prod p (sort_token srt) = v) (list_items c q knd brnd netw mn mx srt)
       = filter (\<lambda>p. sort_key_prod p (sort_token srt) = v) ?xs"
    unfolding list_items_def by (rule py_sort_stable)
  show ?thesis using up down stable by blast
qed

theorem list_items_order_witness:
  "''-foo'' \<notin> sortable \<and> sort_reverse (Some ''-foo'')
   \<and> sorted (rev (map (\<lambda>p. lower (name p))
         (list_items (init [phone_p1, plan_s1, plan_s2]) None None None None None None (Some ''-foo''))))
   \<and> ''foo'' \<notin> sortable \<and> \<not> sort_reverse (Some ''foo'')
   \<and> sorted (map (\<lambda>p. lower (name p))
         (list_items (init [plan_s2, plan_s1, phone_p1]) None None None None None None (Some ''foo'')))"
proof -
  have neg: "''-foo'' \<notin> sortable" "sort_reverse (Some ''-foo'')"
    and pos: "''foo'' \<notin> sortable" "\<not> sort_reverse (Some ''foo'')"
    by code_simp+
  show ?thesis
    using list_items_order [of "''-foo''" "init [phone_p1, plan_s1, plan_s2]" None None None None
            None None]
          list_items_order [of "''foo''" "init [plan_s2, plan_s1, phone_p1]" None None None None
            None None]
          neg pos
    by blast
qed

theorem list_items_order_counterexample:
  "''-foo'' \<notin> sortable
   \<and> fst (list (init [phone_p1, plan_s1, plan_s2]) None None None None None None (Some ''-foo'') 1 12)
       = [plan_s2, plan_s1, phone_p1]
   \<and> \<not> sorted (map (\<lambda>p. lower (name p))
         (fst (list (init [phone_p1, plan_s1, plan_s2]) None None None None None None
                (Some ''-foo'') 1 12)))"
  by code_simp

subsection \<open>Failed calls and the catalog\<close>

lemma create_failure_unchanged: "fst (create c d) = Inl e \<Longrightarrow> snd (create c d) = c"
  by (auto simp: create_def split: option.splits sum.splits if_splits)

lemma update_failure_unchanged: "fst (update c s u) = Inl e \<Longrightarrow> snd (update c s u) = c"
  by (auto simp: update_def Let_def split: option.splits sum.splits)

lemma delete_failure_unchanged: "fst (delete c s) = Inl e \<Longrightarrow> snd (delete c s) = c"
  by (auto simp: delete_def split: if_splits)

lemma keyed_dict_set: "keyed_by_sku c \<Longrightarrow> keyed_by_sku (dict_set c (sku p) p)"
  by (fastforce simp: keyed_by_sku_def dict_set_def list_all_iff split: if_splits)

lemma keyed_dict_del: "keyed_by_sku c \<Longrightarrow> keyed_by_sku (dict_del c s)"
  by (auto simp: keyed_by_sku_def dict_del_def list_all_iff)

lemma create_keyed: "keyed_by_sku c \<Longrightarrow> keyed_by_sku (snd (create c d))"
  by (auto simp: create_def keyed_dict_set split: option.splits sum.splits)

lemma delete_keyed: "keyed_by_sku c \<Longrightarrow> keyed_by_sku (snd (delete c s))"
  by (auto simp: delete_def keyed_dict_del)

lemma upsert_many_loop_keyed:
  "keyed_by_sku c \<Longrightarrow> keyed_by_sku (snd (upsert_many_loop items n c))"
  by (induction items arbitrary: n c) (auto simp: keyed_dict_set split: option.splits sum.splits)

text \<open>
  Claim C1. \<^verbatim>\<open>upsert_many\<close> is to skip a payload that fails validation and go on
  with the batch. On a fresh service, the batch of the valid payload of \<^verbatim>\<open>p1\<close>
  followed by a payload of kind \<^verbatim>\<open>phone\<close> without any other field does not return
  the count 1: the call ends with the validation error, after \<^verbatim>\<open>p1\<close> was stored.
  Only a payload whose \<^verbatim>\<open>kind\<close> is unknown is skipped.
\<close>

theorem upsert_many_invalid_payload_raises:
  "upsert_many [] [model_dump phone_p1, bare_phone] = (Inl ValidationError, [(''p1'', phone_p1)])
   \<and> upsert_many [] [model_dump phone_p1, [''kind'' \<mapsto> VStr ''tablet'']]
       = (Inr 1, [(''p1'', phone_p1)])"
  by code_simp

text \<open>
  Claim C2. Every stored record is to carry the SKU it is stored under, and an update
  is not to change a record's SKU. \<^verbatim>\<open>update\<close> of \<^verbatim>\<open>p1\<close> with a partial field set
  that names another SKU stores, under the key \<^verbatim>\<open>p1\<close>, a record whose SKU is
  \<^verbatim>\<open>p9\<close>: the catalog was keyed by SKU before the call and is not after it.
\<close>

theorem update_changes_stored_sku:
  "keyed_by_sku (init [phone_p1])
   \<and> update (init [phone_p1]) ''p1'' [''sku'' \<mapsto> VStr ''p9'']
       = (Inr (PhoneProduct ''p9'' ''Alpha'' ''Acme'' 500 ''A phone'' [''5G''] True),
          [(''p1'', PhoneProduct ''p9'' ''Alpha'' ''Acme'' 500 ''A phone'' [''5G''] True)])
   \<and> \<not> keyed_by_sku (snd (update (init [phone_p1]) ''p1'' [''sku'' \<mapsto> VStr ''p9'']))"
  by code_simp

text \<open>
  Claim C5. A call that raises is to leave the catalog as it was. \<^verbatim>\<open>upsert_many\<close>
  on the catalog holding \<^verbatim>\<open>s1\<close>, given the valid payload of \<^verbatim>\<open>p1\<close> followed by a
  payload that fails validation, raises the validation error and leaves \<^verbatim>\<open>p1\<close> in
  the catalog.
\<close>

theorem upsert_many_partial_on_failure:
  "fst (upsert_many (init [plan_s1]) [model_dump phone_p1, bare_phone]) = Inl ValidationError
   \<and> snd (upsert_many (init [plan_s1]) [model_dump phone_p1, bare_phone])
       = [(''s1'', plan_s1), (''p1'', phone_p1)]
   \<and> snd (upsert_many (init [plan_s1]) [model_dump phone_p1, bare_phone]) \<noteq> init [plan_s1]"
  by code_simp

end
